theory Spec2Isabelle
  imports Main "HOL-Library.Word" "HOL-Library.Sublist" "HOL-Library.Char_ord"
    "HOL-Library.List_Lexorder"
begin

unbundle bit_operations_syntax

section \<open>Go strings\<close>

text \<open>
  A Go string is a sequence of bytes; \<open>len\<close>, indexing and slicing count bytes.
  It is modelled as \<^typ>\<open>string\<close>, a list of 8-bit characters.
\<close>

text \<open>\<open>strings.Index(s, substr)\<close>: the position of the first occurrence, \<open>None\<close> for -1.\<close>

fun Index :: "string \<Rightarrow> string \<Rightarrow> nat option" where
  "Index [] substr = (if substr = [] then Some 0 else None)"
| "Index (c # cs) substr =
     (if prefix substr (c # cs) then Some 0 else map_option Suc (Index cs substr))"

text \<open>
  \<open>strings.SplitN(s, sep, 2)\<close> for a non-empty separator: the library cuts at the first
  occurrence of the separator and returns one element when there is none.
\<close>

definition SplitN2 :: "string \<Rightarrow> string \<Rightarrow> string list" where
  "SplitN2 s sep =
     (case Index s sep of
        None \<Rightarrow> [s]
      | Some m \<Rightarrow> [take m s, drop (m + length sep) s])"

section \<open>Identifier and name model (internal/pgq/types.go)\<close>

definition maxIdentifierLength :: nat where
  "maxIdentifierLength = 63"

type_synonym QueueName = string
type_synonym SchemaName = string
type_synonym FQN = string

text \<open>The byte comparisons of \<open>Valid\<close> are comparisons of the byte values.\<close>

definition byte_between :: "char \<Rightarrow> char \<Rightarrow> char \<Rightarrow> bool" where
  "byte_between lo c hi = ((of_char lo :: nat) \<le> of_char c \<and> (of_char c :: nat) \<le> of_char hi)"

definition Valid :: "QueueName \<Rightarrow> bool" where
  "Valid q =
     (if q = [] then False
      else if length q > maxIdentifierLength then False
      else (case q of
              [] \<Rightarrow> False
            | first # _ \<Rightarrow>
                if \<not> (byte_between (CHR ''a'') first (CHR ''z'')
                       \<or> byte_between (CHR ''A'') first (CHR ''Z'')
                       \<or> first = CHR ''_'')
                then False
                else True))"

definition SchemaName_Valid :: "SchemaName \<Rightarrow> bool" where
  "SchemaName_Valid s = Valid s"

definition MakeFQN :: "SchemaName \<Rightarrow> QueueName \<Rightarrow> FQN" where
  "MakeFQN schema queue = schema @ ''.'' @ queue"

datatype split_error = InvalidFQNFormat FQN

definition Split :: "FQN \<Rightarrow> split_error + (SchemaName \<times> QueueName)" where
  "Split f =
     (let parts = SplitN2 f ''.''
      in if length parts \<noteq> 2 then Inl (InvalidFQNFormat f)
         else Inr (parts ! 0, parts ! 1))"

text \<open>The letters of the identifier rule, written out.\<close>

definition ascii_letters :: "char set" where
  "ascii_letters = set ''abcdefghijklmnopqrstuvwxyzABCDEFGHIJKLMNOPQRSTUVWXYZ''"

section \<open>SHA-256 and hexadecimal encoding (crypto/sha256, encoding/hex)\<close>

text \<open>
  \<open>generateIndexName\<close> calls \<open>sha256.Sum256\<close> and \<open>hex.EncodeToString\<close> of the Go
  standard library. The hash is modelled as FIPS 180-4 defines it, on 32-bit words.
\<close>

type_synonym w32 = "32 word"

definition rotr :: "nat \<Rightarrow> w32 \<Rightarrow> w32" where
  "rotr n x = drop_bit n x OR push_bit (32 - n) x"

definition Ch :: "w32 \<Rightarrow> w32 \<Rightarrow> w32 \<Rightarrow> w32" where
  "Ch x y z = (x AND y) XOR (NOT x AND z)"

definition Maj :: "w32 \<Rightarrow> w32 \<Rightarrow> w32 \<Rightarrow> w32" where
  "Maj x y z = (x AND y) XOR (x AND z) XOR (y AND z)"

definition bsig0 :: "w32 \<Rightarrow> w32" where
  "bsig0 x = rotr 2 x XOR rotr 13 x XOR rotr 22 x"

definition bsig1 :: "w32 \<Rightarrow> w32" where
  "bsig1 x = rotr 6 x XOR rotr 11 x XOR rotr 25 x"

definition ssig0 :: "w32 \<Rightarrow> w32" where
  "ssig0 x = rotr 7 x XOR rotr 18 x XOR drop_bit 3 x"

definition ssig1 :: "w32 \<Rightarrow> w32" where
  "ssig1 x = rotr 17 x XOR rotr 19 x XOR drop_bit 10 x"

definition sha256_K :: "w32 list" where
  "sha256_K =
     [0x428A2F98, 0x71374491, 0xB5C0FBCF, 0xE9B5DBA5,
      0x3956C25B, 0x59F111F1, 0x923F82A4, 0xAB1C5ED5,
      0xD807AA98, 0x12835B01, 0x243185BE, 0x550C7DC3,
      0x72BE5D74, 0x80DEB1FE, 0x9BDC06A7, 0xC19BF174,
      0xE49B69C1, 0xEFBE4786, 0x0FC19DC6, 0x240CA1CC,
      0x2DE92C6F, 0x4A7484AA, 0x5CB0A9DC, 0x76F988DA,
      0x983E5152, 0xA831C66D, 0xB00327C8, 0xBF597FC7,
      0xC6E00BF3, 0xD5A79147, 0x06CA6351, 0x14292967,
      0x27B70A85, 0x2E1B2138, 0x4D2C6DFC, 0x53380D13,
      0x650A7354, 0x766A0ABB, 0x81C2C92E, 0x92722C85,
      0xA2BFE8A1, 0xA81A664B, 0xC24B8B70, 0xC76C51A3,
      0xD192E819, 0xD6990624, 0xF40E3585, 0x106AA070,
      0x19A4C116, 0x1E376C08, 0x2748774C, 0x34B0BCB5,
      0x391C0CB3, 0x4ED8AA4A, 0x5B9CCA4F, 0x682E6FF3,
      0x748F82EE, 0x78A5636F, 0x84C87814, 0x8CC70208,
      0x90BEFFFA, 0xA4506CEB, 0xBEF9A3F7, 0xC67178F2]"

type_synonym sha256_state = "w32 \<times> w32 \<times> w32 \<times> w32 \<times> w32 \<times> w32 \<times> w32 \<times> w32"

definition sha256_init :: sha256_state where
  "sha256_init =
     (0x6A09E667, 0xBB67AE85, 0x3C6EF372, 0xA54FF53A,
      0x510E527F, 0x9B05688C, 0x1F83D9AB, 0x5BE0CD19)"

text \<open>
  Padding: the byte 0x80, zero bytes until the length is 56 modulo 64, then the bit
  length of the message in eight bytes, most significant first.
\<close>

definition be64 :: "nat \<Rightarrow> string" where
  "be64 n = map (\<lambda>i. char_of (drop_bit (8 * i) n)) [7, 6, 5, 4, 3, 2, 1, 0]"

definition sha256_pad :: "string \<Rightarrow> string" where
  "sha256_pad m =
     m @ [char_of (128 :: nat)] @ replicate ((119 - length m mod 64) mod 64) (char_of (0 :: nat))
       @ be64 (8 * length m)"

definition be_word :: "char \<Rightarrow> char \<Rightarrow> char \<Rightarrow> char \<Rightarrow> w32" where
  "be_word a b c d =
     push_bit 24 (of_nat (of_char a)) OR push_bit 16 (of_nat (of_char b))
       OR push_bit 8 (of_nat (of_char c)) OR of_nat (of_char d)"

fun be_words :: "string \<Rightarrow> w32 list" where
  "be_words (a # b # c # d # r) = be_word a b c d # be_words r"
| "be_words _ = []"

definition word_bytes :: "w32 \<Rightarrow> string" where
  "word_bytes x =
     [char_of (unat (drop_bit 24 x)), char_of (unat (drop_bit 16 x)),
      char_of (unat (drop_bit 8 x)), char_of (unat x)]"

text \<open>One round; the message schedule is kept as a window of the last sixteen words.\<close>

fun sha256_round :: "w32 \<Rightarrow> w32 list \<times> sha256_state \<Rightarrow> w32 list \<times> sha256_state" where
  "sha256_round k (w, (a, b, c, d, e, f, g, h)) =
     (let t1 = h + bsig1 e + Ch e f g + k + w ! 0;
          t2 = bsig0 a + Maj a b c;
          wn = ssig1 (w ! 14) + w ! 9 + ssig0 (w ! 1) + w ! 0
      in (tl w @ [wn], (t1 + t2, a, b, c, d + t1, e, f, g)))"

definition sha256_rounds :: "w32 list \<Rightarrow> sha256_state \<Rightarrow> sha256_state" where
  "sha256_rounds w s = snd (fold sha256_round sha256_K (w, s))"

fun sha256_add :: "sha256_state \<Rightarrow> sha256_state \<Rightarrow> sha256_state" where
  "sha256_add (a, b, c, d, e, f, g, h) (a', b', c', d', e', f', g', h') =
     (a + a', b + b', c + c', d + d', e + e', f + f', g + g', h + h')"

definition sha256_block :: "sha256_state \<Rightarrow> w32 list \<Rightarrow> sha256_state" where
  "sha256_block h w = sha256_add h (sha256_rounds w h)"

fun sha256_blocks :: "nat \<Rightarrow> sha256_state \<Rightarrow> w32 list \<Rightarrow> sha256_state" where
  "sha256_blocks 0 h ws = h"
| "sha256_blocks (Suc n) h ws = sha256_blocks n (sha256_block h (take 16 ws)) (drop 16 ws)"

fun sha256_digest :: "sha256_state \<Rightarrow> string" where
  "sha256_digest (a, b, c, d, e, f, g, h) = concat (map word_bytes [a, b, c, d, e, f, g, h])"

definition Sum256 :: "string \<Rightarrow> string" where
  "Sum256 m =
     (let p = sha256_pad m
      in sha256_digest (sha256_blocks (length p div 64) sha256_init (be_words p)))"

definition hextable :: string where
  "hextable = ''0123456789abcdef''"

definition EncodeToString :: "string \<Rightarrow> string" where
  "EncodeToString src =
     concat (map (\<lambda>v. [hextable ! (of_char v div 16), hextable ! (of_char v mod 16)]) src)"

section \<open>Custom index naming and parsing (internal/pgq/index.go)\<close>

definition maxColumnNameLength :: nat where
  "maxColumnNameLength = 20"

definition hashLength :: nat where
  "hashLength = 8"

definition indexCreatedAt :: string where
  "indexCreatedAt = ''_created_at_idx''"

definition indexProcessedAtNull :: string where
  "indexProcessedAtNull = ''_processed_at_null_idx''"

definition indexScheduledFor :: string where
  "indexScheduledFor = ''_scheduled_for_idx''"

definition indexMetadata :: string where
  "indexMetadata = ''_metadata_idx''"

record CustomIndex =
  Name :: string
  Columns :: "string list"
  Type :: string
  Where :: string

text \<open>
  \<open>strings.NewReplacer(...).Replace\<close> with old strings that are not all single bytes is
  the generic replacer: it scans the string once from the left; at each position the first
  pair, in argument order, whose old string starts there is applied and the scan continues
  after the match, otherwise the byte is copied. All old strings here are non-empty.
\<close>

fun lookup_pair :: "(string \<times> string) list \<Rightarrow> string \<Rightarrow> (string \<times> string) option" where
  "lookup_pair [] s = None"
| "lookup_pair ((old, new) # ps) s =
     (if prefix old s then Some (old, new) else lookup_pair ps s)"

function Replace :: "(string \<times> string) list \<Rightarrow> string \<Rightarrow> string" where
  "Replace ps [] = []"
| "Replace ps (c # cs) =
     (case lookup_pair ps (c # cs) of
        None \<Rightarrow> c # Replace ps cs
      | Some (old, new) \<Rightarrow> new @ Replace ps (drop (length old - 1) cs))"
  by pat_completeness auto
termination
  by (relation "measure (\<lambda>(ps, s). length s)") auto

definition replacer :: "(string \<times> string) list" where
  "replacer =
     [(''('', ''''), ('')'', ''''), ([CHR 0x27], ''''), ([CHR 0x22], ''''),
      (''->>'', ''_''), (''->'', ''_''), ('' '', ''_'')]"

text \<open>\<open>strings.Join(elems, sep)\<close>.\<close>

fun Join :: "string list \<Rightarrow> string \<Rightarrow> string" where
  "Join [] sep = []"
| "Join [x] sep = x"
| "Join (x # y # ys) sep = x @ sep @ Join (y # ys) sep"

definition clean_column :: "string \<Rightarrow> string" where
  "clean_column col =
     (let clean = Replace replacer col
      in if length clean > maxColumnNameLength then take maxColumnNameLength clean else clean)"

definition generateIndexName :: "string \<Rightarrow> string list \<Rightarrow> string \<Rightarrow> string" where
  "generateIndexName tableName columns indexType =
     (let parts = tableName # map clean_column columns;
          baseName = Join parts ''_'';
          baseName = (if indexType \<noteq> '''' \<and> indexType \<noteq> ''btree''
                      then baseName @ ''_'' @ indexType else baseName);
          hash = Sum256 (Join columns '','');
          baseName = baseName @ ''_'' @ take hashLength (EncodeToString hash);
          baseName = baseName @ ''_idx''
      in if length baseName > maxIdentifierLength then take maxIdentifierLength baseName
         else baseName)"

subsection \<open>The naming algorithm as the specification words it\<close>

text \<open>
  \<open>strings.ReplaceAll(s, old, new)\<close> for a non-empty \<open>old\<close>: every non-overlapping
  occurrence, found from the left, is replaced.
\<close>

function ReplaceAll :: "string \<Rightarrow> string \<Rightarrow> string \<Rightarrow> string" where
  "ReplaceAll [] old new = []"
| "ReplaceAll (c # cs) old new =
     (if old \<noteq> [] \<and> prefix old (c # cs) then new @ ReplaceAll (drop (length old - 1) cs) old new
      else c # ReplaceAll cs old new)"
  by pat_completeness auto
termination
  by (relation "measure (\<lambda>(s, old, new). length s)") auto

definition remove_chars :: "string \<Rightarrow> string \<Rightarrow> string" where
  "remove_chars chars s = filter (\<lambda>c. c \<notin> set chars) s"

definition stripped_chars :: string where
  "stripped_chars = [CHR ''('', CHR '')'', CHR 0x27, CHR 0x22]"

text \<open>
  The steps in the order of the sentence: remove the four characters, replace \<open>->>\<close>
  and \<open>->\<close> by an underscore, replace spaces by an underscore, truncate to 20.
\<close>

definition spec_clean_column :: "string \<Rightarrow> string" where
  "spec_clean_column col =
     take 20 (ReplaceAll (ReplaceAll (ReplaceAll (remove_chars stripped_chars col)
                ''->>'' ''_'') ''->'' ''_'') '' '' ''_'')"

text \<open>The same steps with the operators replaced first, in the original expression.\<close>

definition scan_clean_column :: "string \<Rightarrow> string" where
  "scan_clean_column col =
     take 20 (ReplaceAll (remove_chars stripped_chars
                (ReplaceAll (ReplaceAll col ''->>'' ''_'') ''->'' ''_'')) '' '' ''_'')"

definition hash_suffix :: "string list \<Rightarrow> string" where
  "hash_suffix cols = take 8 (EncodeToString (Sum256 (Join cols '','')))"

definition name_by_steps :: "(string \<Rightarrow> string) \<Rightarrow> string \<Rightarrow> string list \<Rightarrow> string \<Rightarrow> string" where
  "name_by_steps clean t cols ty =
     take 63 (Join (t # map clean cols) ''_''
              @ (if ty = '''' \<or> ty = ''btree'' then '''' else ''_'' @ ty)
              @ ''_'' @ hash_suffix cols @ ''_idx'')"

definition spec_generateIndexName :: "string \<Rightarrow> string list \<Rightarrow> string \<Rightarrow> string" where
  "spec_generateIndexName = name_by_steps spec_clean_column"

definition scan_generateIndexName :: "string \<Rightarrow> string list \<Rightarrow> string \<Rightarrow> string" where
  "scan_generateIndexName = name_by_steps scan_clean_column"

text \<open>The two halves of the single scan, and the name before the final truncation.\<close>

definition arrows :: "string \<Rightarrow> string" where
  "arrows s = ReplaceAll (ReplaceAll s ''->>'' ''_'') ''->'' ''_''"

definition strip_space :: "string \<Rightarrow> string" where
  "strip_space s = ReplaceAll (remove_chars stripped_chars s) '' '' ''_''"

definition base_name :: "string \<Rightarrow> string list \<Rightarrow> string \<Rightarrow> string" where
  "base_name t cols ty =
     Join (t # map clean_column cols) ''_''
       @ (if ty = '''' \<or> ty = ''btree'' then '''' else ''_'' @ ty)
       @ ''_'' @ hash_suffix cols @ ''_idx''"

subsection \<open>Reading an index definition back\<close>

text \<open>More of the \<open>strings\<close> package, on bytes.\<close>

definition Contains :: "string \<Rightarrow> string \<Rightarrow> bool" where
  "Contains s substr = (Index s substr \<noteq> None)"

text \<open>\<open>strings.LastIndex\<close>: the position of the last occurrence.\<close>

definition LastIndex :: "string \<Rightarrow> string \<Rightarrow> nat option" where
  "LastIndex s substr =
     (case Index (rev s) (rev substr) of
        None \<Rightarrow> None
      | Some m \<Rightarrow> Some (length s - m - length substr))"

text \<open>
  \<open>strings.ToUpper\<close> maps the bytes \<open>a\<close> to \<open>z\<close> to \<open>A\<close> to \<open>Z\<close>. On text that is
  not ASCII the library also maps other letters; the model leaves those bytes as they are.
\<close>

definition to_upper_byte :: "char \<Rightarrow> char" where
  "to_upper_byte c =
     (if byte_between (CHR ''a'') c (CHR ''z'') then char_of ((of_char c :: nat) - 32) else c)"

definition ToUpper :: "string \<Rightarrow> string" where
  "ToUpper s = map to_upper_byte s"

text \<open>\<open>strings.Split(s, sep)\<close> for a non-empty separator.\<close>

function SplitAll :: "string \<Rightarrow> string \<Rightarrow> string list" where
  "SplitAll s sep =
     (case Index s sep of
        None \<Rightarrow> [s]
      | Some m \<Rightarrow>
          if sep = [] then [s]
          else take m s # SplitAll (drop (m + length sep) s) sep)"
  by pat_completeness auto
termination
proof (relation "measure (\<lambda>(s, sep). length s)")
  show "wf (measure (\<lambda>(s, sep). length s))" by simp
next
  fix s sep :: string and m :: nat
  assume i: "Index s sep = Some m" and ne: "sep \<noteq> []"
  have "s \<noteq> []" using i ne by (cases s) auto
  then have "length s - (m + length sep) < length s" using ne by (cases s) auto
  then show "((drop (m + length sep) s, sep), (s, sep)) \<in> measure (\<lambda>(s, sep). length s)"
    by simp
qed

text \<open>\<open>strings.TrimSpace\<close>, for the ASCII white space.\<close>

definition is_space :: "char \<Rightarrow> bool" where
  "is_space c = (c \<in> set [CHR 0x09, CHR 0x0A, CHR 0x0B, CHR 0x0C, CHR 0x0D, CHR '' ''])"

definition TrimSpace :: "string \<Rightarrow> string" where
  "TrimSpace s = rev (dropWhile is_space (rev (dropWhile is_space s)))"

definition parseIndexDef :: "string \<Rightarrow> string \<Rightarrow> CustomIndex" where
  "parseIndexDef name def =
     (let idx = \<lparr>Name = name, Columns = [], Type = '''', Where = ''''\<rparr>;
          idx = idx\<lparr>Type :=
                  (if Contains def '' USING gin '' then ''gin''
                   else if Contains def '' USING gist '' then ''gist''
                   else if Contains def '' USING hash '' then ''hash''
                   else if Contains def '' USING brin '' then ''brin''
                   else ''btree'')\<rparr>;
          idx = (case (Index def ''('', LastIndex def '')'') of
                   (Some columnsStart, Some columnsEnd) \<Rightarrow>
                     if columnsEnd > columnsStart then
                       (let columnsStr = take (columnsEnd - (columnsStart + 1))
                                              (drop (columnsStart + 1) def);
                            columnsStr = (case Index (ToUpper columnsStr) '' WHERE '' of
                                            Some whereIdx \<Rightarrow> take whereIdx columnsStr
                                          | None \<Rightarrow> columnsStr)
                        in idx\<lparr>Columns := SplitAll columnsStr '', ''\<rparr>)
                     else idx
                 | _ \<Rightarrow> idx)
      in (case Index (ToUpper def) '' WHERE '' of
            Some whereIdx \<Rightarrow> idx\<lparr>Where := TrimSpace (drop (whereIdx + 7) def)\<rparr>
          | None \<Rightarrow> idx))"

text \<open>
  \<open>pgx.Identifier.Sanitize\<close> for one part: NUL bytes are removed, double quotes are
  doubled, and the result is put in double quotes.
\<close>

definition Sanitize :: "string \<Rightarrow> string" where
  "Sanitize s =
     [CHR 0x22] @ ReplaceAll (ReplaceAll s [CHR 0x00] '''') [CHR 0x22] [CHR 0x22, CHR 0x22]
       @ [CHR 0x22]"

text \<open>The statement text that \<open>CreateCustomIndexes\<close> builds for one index.\<close>

definition custom_index_name :: "QueueName \<Rightarrow> CustomIndex \<Rightarrow> string" where
  "custom_index_name name idx =
     (if Name idx = '''' then generateIndexName name (Columns idx) (Type idx) else Name idx)"

definition custom_index_sql :: "SchemaName \<Rightarrow> QueueName \<Rightarrow> CustomIndex \<Rightarrow> string" where
  "custom_index_sql schema name idx =
     ''CREATE INDEX IF NOT EXISTS '' @ Sanitize (custom_index_name name idx)
       @ '' ON '' @ Sanitize schema @ ''.'' @ Sanitize name
       @ (if Type idx \<noteq> '''' \<and> Type idx \<noteq> ''btree'' then '' USING '' @ Type idx else '''')
       @ '' ('' @ Join (Columns idx) '', '' @ '')''
       @ (if Where idx \<noteq> '''' then '' WHERE '' @ Where idx else '''')"

section \<open>The database behind the connection pool\<close>

text \<open>
  The manager talks to PostgreSQL through a pgx connection pool. The model keeps the part
  of the catalog that the queries and statements of the source read and write, and the
  list of calls made so far. Whether a call fails is not decided by the code: the pool
  carries a list of outcomes, one consumed per call (\<open>True\<close> is a driver error, the
  empty list means success), so every error branch of the source can be taken.
\<close>

datatype error =
    QueueError string FQN
  | QueueExistsError FQN
  | QueueNotFoundError FQN
  | PartmanError string FQN

definition wrapErr :: "string \<Rightarrow> FQN \<Rightarrow> error" where
  "wrapErr op fqn = QueueError op fqn"

definition wrapPartmanErr :: "string \<Rightarrow> FQN \<Rightarrow> error" where
  "wrapPartmanErr op fqn = PartmanError op fqn"

record column =
  col_name :: string
  col_type :: string
  col_not_null :: bool
  col_default :: string

record table_row =
  tbl_schema :: string
  tbl_name :: string
  tbl_columns :: "column list"
  tbl_primary_key :: "string list"
  tbl_partition_by :: string

text \<open>
  An index of the catalog: schema, table, name, and the text of its definition (what
  \<open>pg_get_indexdef\<close> returns when the row is read).
\<close>

record index_row =
  idx_schema :: string
  idx_table :: string
  idx_name :: string
  idx_def :: string

record part_config_row =
  parent_table :: string
  partition_interval :: string
  premake :: int
  retention :: string
  datetime_string :: string
  optimize_constraint :: int
  retention_keep_index :: bool
  retention_keep_table :: bool
  ignore_default_data :: bool

record database =
  db_tables :: "table_row list"
  db_indexes :: "index_row list"
  db_part_config :: "part_config_row list"
  db_children :: "(string \<times> string \<times> string) list"

text \<open>The statements the modelled functions execute, read off their SQL text.\<close>

datatype stmt =
    CreateTable SchemaName QueueName bool
  | CreateIndex string SchemaName QueueName string
  | DropIndex SchemaName string
  | UpdatePartConfig string string int string string int

datatype call =
    QueryExists SchemaName QueueName
  | QueryIndexes SchemaName QueueName
  | ScanRow
  | RowsErr
  | QueryPartConfig string
  | QueryDefaultPartition SchemaName QueueName
  | Begin
  | TxExec stmt
  | PoolExec stmt
  | Commit
  | Rollback

record pool =
  committed :: database
  faults :: "bool list"
  calls :: "call list"

definition do_call :: "call \<Rightarrow> pool \<Rightarrow> bool \<times> pool" where
  "do_call c p =
     (case faults p of
        [] \<Rightarrow> (False, p\<lparr>calls := calls p @ [c]\<rparr>)
      | f # fs \<Rightarrow> (f, p\<lparr>faults := fs, calls := calls p @ [c]\<rparr>))"

text \<open>The ten columns of \<open>createTable\<close>.\<close>

definition queue_columns :: "column list" where
  "queue_columns =
     [\<lparr>col_name = ''id'', col_type = ''UUID'', col_not_null = True,
         col_default = ''gen_random_uuid()''\<rparr>,
      \<lparr>col_name = ''created_at'', col_type = ''TIMESTAMPTZ'', col_not_null = True,
         col_default = ''CURRENT_TIMESTAMP''\<rparr>,
      \<lparr>col_name = ''started_at'', col_type = ''TIMESTAMPTZ'', col_not_null = False,
         col_default = ''''\<rparr>,
      \<lparr>col_name = ''locked_until'', col_type = ''TIMESTAMPTZ'', col_not_null = False,
         col_default = ''''\<rparr>,
      \<lparr>col_name = ''scheduled_for'', col_type = ''TIMESTAMPTZ'', col_not_null = False,
         col_default = ''''\<rparr>,
      \<lparr>col_name = ''processed_at'', col_type = ''TIMESTAMPTZ'', col_not_null = False,
         col_default = ''''\<rparr>,
      \<lparr>col_name = ''consumed_count'', col_type = ''INTEGER'', col_not_null = True,
         col_default = ''0''\<rparr>,
      \<lparr>col_name = ''error_detail'', col_type = ''TEXT'', col_not_null = False,
         col_default = ''''\<rparr>,
      \<lparr>col_name = ''payload'', col_type = ''JSONB'', col_not_null = True,
         col_default = ''''\<rparr>,
      \<lparr>col_name = ''metadata'', col_type = ''JSONB'', col_not_null = True,
         col_default = ''''\<rparr>]"

definition table_exists :: "database \<Rightarrow> SchemaName \<Rightarrow> QueueName \<Rightarrow> bool" where
  "table_exists db schema name =
     list_ex (\<lambda>t. tbl_schema t = schema \<and> tbl_name t = name) (db_tables db)"

definition index_exists :: "database \<Rightarrow> SchemaName \<Rightarrow> string \<Rightarrow> bool" where
  "index_exists db schema iname =
     list_ex (\<lambda>i. idx_schema i = schema \<and> idx_name i = iname) (db_indexes db)"

text \<open>
  The effect of a statement that succeeds. \<open>IF NOT EXISTS\<close> and \<open>IF EXISTS\<close> make the
  statement do nothing when the name is taken or absent. The primary-key index that
  PostgreSQL adds to a new table is not tracked.
\<close>

fun apply_stmt :: "stmt \<Rightarrow> database \<Rightarrow> database" where
  "apply_stmt (CreateTable schema name partitioned) db =
     (if table_exists db schema name then db
      else db\<lparr>db_tables := db_tables db @
             [\<lparr>tbl_schema = schema, tbl_name = name, tbl_columns = queue_columns,
               tbl_primary_key = (if partitioned then [''id'', ''created_at''] else [''id'']),
               tbl_partition_by = (if partitioned then ''RANGE (created_at)'' else '''')\<rparr>]\<rparr>)"
| "apply_stmt (CreateIndex iname schema name def) db =
     (if index_exists db schema iname then db
      else db\<lparr>db_indexes := db_indexes db @
             [\<lparr>idx_schema = schema, idx_table = name, idx_name = iname, idx_def = def\<rparr>]\<rparr>)"
| "apply_stmt (DropIndex schema iname) db =
     db\<lparr>db_indexes := filter (\<lambda>i. \<not> (idx_schema i = schema \<and> idx_name i = iname))
                          (db_indexes db)\<rparr>"
| "apply_stmt (UpdatePartConfig parent interval pm ret dts oc) db =
     db\<lparr>db_part_config :=
          map (\<lambda>r. if parent_table r = parent
                    then r\<lparr>partition_interval := interval, premake := pm, retention := ret,
                           datetime_string := dts, optimize_constraint := oc\<rparr>
                    else r)
              (db_part_config db)\<rparr>"

text \<open>\<open>pool.Exec\<close>: the statement runs in its own transaction.\<close>

definition pool_Exec :: "stmt \<Rightarrow> pool \<Rightarrow> bool \<times> pool" where
  "pool_Exec s p =
     (case do_call (PoolExec s) p of
        (True, p1) \<Rightarrow> (False, p1)
      | (False, p1) \<Rightarrow> (True, p1\<lparr>committed := apply_stmt s (committed p1)\<rparr>))"

text \<open>
  A transaction works on a copy of the committed state; \<open>Commit\<close> installs the copy,
  \<open>Rollback\<close> drops it and does nothing once the transaction is closed.
\<close>

record tx =
  conn :: pool
  work :: database
  closed :: bool

definition pool_Begin :: "pool \<Rightarrow> pool + tx" where
  "pool_Begin p =
     (case do_call Begin p of
        (True, p1) \<Rightarrow> Inl p1
      | (False, p1) \<Rightarrow> Inr \<lparr>conn = p1, work = committed p1, closed = False\<rparr>)"

definition tx_Exec :: "stmt \<Rightarrow> tx \<Rightarrow> bool \<times> tx" where
  "tx_Exec s t =
     (case do_call (TxExec s) (conn t) of
        (True, p1) \<Rightarrow> (False, t\<lparr>conn := p1\<rparr>)
      | (False, p1) \<Rightarrow> (True, t\<lparr>conn := p1, work := apply_stmt s (work t)\<rparr>))"

definition tx_Commit :: "tx \<Rightarrow> bool \<times> tx" where
  "tx_Commit t =
     (case do_call Commit (conn t) of
        (True, p1) \<Rightarrow> (False, t\<lparr>conn := p1, closed := True\<rparr>)
      | (False, p1) \<Rightarrow> (True, t\<lparr>conn := p1\<lparr>committed := work t\<rparr>, closed := True\<rparr>))"

definition tx_Rollback :: "tx \<Rightarrow> pool" where
  "tx_Rollback t =
     (if closed t then conn t else (conn t)\<lparr>calls := calls (conn t) @ [Rollback]\<rparr>)"

section \<open>Queue manager (internal/pgq/queue.go)\<close>

definition Exists :: "pool \<Rightarrow> SchemaName \<Rightarrow> QueueName \<Rightarrow> (error + bool) \<times> pool" where
  "Exists p schema name =
     (let fqn = MakeFQN schema name
      in case do_call (QueryExists schema name) p of
           (True, p1) \<Rightarrow> (Inl (wrapErr ''check_exists'' fqn), p1)
         | (False, p1) \<Rightarrow> (Inr (table_exists (committed p1) schema name), p1))"

definition createTable :: "tx \<Rightarrow> SchemaName \<Rightarrow> QueueName \<Rightarrow> bool \<Rightarrow> error option \<times> tx" where
  "createTable t schema name partitioned =
     (let fqn = MakeFQN schema name
      in case tx_Exec (CreateTable schema name partitioned) t of
           (False, t1) \<Rightarrow> (Some (wrapErr ''create_table'' fqn), t1)
         | (True, t1) \<Rightarrow> (None, t1))"

definition standard_indexes :: "(string \<times> string) list" where
  "standard_indexes =
     [(indexCreatedAt, ''(created_at)''),
      (indexProcessedAtNull, ''(processed_at) WHERE (processed_at IS NULL)''),
      (indexScheduledFor, ''(scheduled_for ASC NULLS LAST) WHERE (processed_at IS NULL)''),
      (indexMetadata, ''USING GIN(metadata) WHERE processed_at IS NULL'')]"

fun createIndexes_loop ::
  "tx \<Rightarrow> SchemaName \<Rightarrow> QueueName \<Rightarrow> (string \<times> string) list \<Rightarrow> error option \<times> tx" where
  "createIndexes_loop t schema name [] = (None, t)"
| "createIndexes_loop t schema name ((sfx, def) # rest) =
     (case tx_Exec (CreateIndex (name @ sfx) schema name ('' '' @ def)) t of
        (False, t1) \<Rightarrow> (Some (wrapErr (''create_index'' @ sfx) (MakeFQN schema name)), t1)
      | (True, t1) \<Rightarrow> createIndexes_loop t1 schema name rest)"

definition createIndexes :: "tx \<Rightarrow> SchemaName \<Rightarrow> QueueName \<Rightarrow> error option \<times> tx" where
  "createIndexes t schema name = createIndexes_loop t schema name standard_indexes"

text \<open>The deferred \<open>tx.Rollback\<close> runs on every return after \<open>Begin\<close> succeeded.\<close>

definition CreateSimple :: "pool \<Rightarrow> SchemaName \<Rightarrow> QueueName \<Rightarrow> error option \<times> pool" where
  "CreateSimple p schema name =
     (let fqn = MakeFQN schema name
      in case Exists p schema name of
           (Inl err, p1) \<Rightarrow> (Some err, p1)
         | (Inr exists, p1) \<Rightarrow>
             if exists then (Some (QueueExistsError fqn), p1)
             else (case pool_Begin p1 of
                     Inl p2 \<Rightarrow> (Some (wrapErr ''begin_tx'' fqn), p2)
                   | Inr t \<Rightarrow>
                       (case createTable t schema name False of
                          (Some err, t1) \<Rightarrow> (Some err, tx_Rollback t1)
                        | (None, t1) \<Rightarrow>
                            (case createIndexes t1 schema name of
                               (Some err, t2) \<Rightarrow> (Some err, tx_Rollback t2)
                             | (None, t2) \<Rightarrow>
                                 (case tx_Commit t2 of
                                    (False, t3) \<Rightarrow>
                                      (Some (wrapErr ''commit'' fqn), tx_Rollback t3)
                                  | (True, t3) \<Rightarrow> (None, tx_Rollback t3))))))"

text \<open>The statements of \<open>CreateSimple\<close>, in order.\<close>

definition simple_queue_stmts :: "SchemaName \<Rightarrow> QueueName \<Rightarrow> stmt list" where
  "simple_queue_stmts schema name =
     CreateTable schema name False
       # map (\<lambda>(sfx, def). CreateIndex (name @ sfx) schema name ('' '' @ def)) standard_indexes"

text \<open>An empty database behind a pool with a given list of outcomes.\<close>

definition empty_database :: database where
  "empty_database = \<lparr>db_tables = [], db_indexes = [], db_part_config = [], db_children = []\<rparr>"

definition fresh_pool :: "bool list \<Rightarrow> pool" where
  "fresh_pool fs = \<lparr>committed = empty_database, faults = fs, calls = []\<rparr>"

section \<open>Custom indexes in the database (internal/pgq/index.go)\<close>

text \<open>SQL \<open>LIKE\<close>: \<open>%\<close> matches any string, \<open>_\<close> any single character.\<close>

fun like :: "string \<Rightarrow> string \<Rightarrow> bool" where
  "like [] s = (s = [])"
| "like (p # ps) [] = (p = CHR ''%'' \<and> like ps [])"
| "like (p # ps) (c # cs) =
     (if p = CHR ''%'' then like ps (c # cs) \<or> like (p # ps) cs
      else (p = CHR ''_'' \<or> p = c) \<and> like ps cs)"

definition custom_index_def :: "CustomIndex \<Rightarrow> string" where
  "custom_index_def idx =
     (if Type idx \<noteq> '''' \<and> Type idx \<noteq> ''btree'' then '' USING '' @ Type idx else '''')
       @ '' ('' @ Join (Columns idx) '', '' @ '')''
       @ (if Where idx \<noteq> '''' then '' WHERE '' @ Where idx else '''')"

fun CreateCustomIndexes ::
  "tx \<Rightarrow> SchemaName \<Rightarrow> QueueName \<Rightarrow> CustomIndex list \<Rightarrow> error option \<times> tx" where
  "CreateCustomIndexes t schema name [] = (None, t)"
| "CreateCustomIndexes t schema name (idx # rest) =
     (let indexName = custom_index_name name idx
      in case tx_Exec (CreateIndex indexName schema name (custom_index_def idx)) t of
           (False, t1) \<Rightarrow>
             (Some (wrapErr (''create_custom_index_'' @ indexName) (MakeFQN schema name)), t1)
         | (True, t1) \<Rightarrow> CreateCustomIndexes t1 schema name rest)"

text \<open>The rows the catalog query of \<open>GetCustomIndexes\<close> selects, ordered by index name.\<close>

definition custom_index_rows :: "database \<Rightarrow> SchemaName \<Rightarrow> QueueName \<Rightarrow> index_row list" where
  "custom_index_rows db schema name =
     sort_key idx_name
       (filter (\<lambda>i. idx_schema i = schema
                   \<and> idx_table i = name
                   \<and> \<not> like ''%_pkey'' (idx_name i)
                   \<and> idx_name i \<notin> set [name @ indexCreatedAt, name @ indexProcessedAtNull,
                                         name @ indexScheduledFor, name @ indexMetadata])
               (db_indexes db))"

fun scan_rows ::
  "pool \<Rightarrow> FQN \<Rightarrow> index_row list \<Rightarrow> CustomIndex list \<Rightarrow> (error + CustomIndex list) \<times> pool" where
  "scan_rows p fqn [] indexes =
     (case do_call RowsErr p of
        (True, p1) \<Rightarrow> (Inl (wrapErr ''get_custom_indexes_rows'' fqn), p1)
      | (False, p1) \<Rightarrow> (Inr indexes, p1))"
| "scan_rows p fqn (r # rows) indexes =
     (case do_call ScanRow p of
        (True, p1) \<Rightarrow> (Inl (wrapErr ''scan_custom_index'' fqn), p1)
      | (False, p1) \<Rightarrow>
          scan_rows p1 fqn rows (indexes @ [parseIndexDef (idx_name r) (idx_def r)]))"

definition GetCustomIndexes ::
  "pool \<Rightarrow> SchemaName \<Rightarrow> QueueName \<Rightarrow> (error + CustomIndex list) \<times> pool" where
  "GetCustomIndexes p schema name =
     (let fqn = MakeFQN schema name
      in case do_call (QueryIndexes schema name) p of
           (True, p1) \<Rightarrow> (Inl (wrapErr ''get_custom_indexes'' fqn), p1)
         | (False, p1) \<Rightarrow>
             scan_rows p1 fqn (custom_index_rows (committed p1) schema name) [])"

fun DropCustomIndexes ::
  "pool \<Rightarrow> SchemaName \<Rightarrow> QueueName \<Rightarrow> string list \<Rightarrow> error option \<times> pool" where
  "DropCustomIndexes p schema name [] = (None, p)"
| "DropCustomIndexes p schema name (indexName # rest) =
     (case pool_Exec (DropIndex schema indexName) p of
        (False, p1) \<Rightarrow>
          (Some (wrapErr (''drop_custom_index_'' @ indexName) (MakeFQN schema name)), p1)
      | (True, p1) \<Rightarrow> DropCustomIndexes p1 schema name rest)"

section \<open>Partition policy (internal/pgq/partman.go)\<close>

record PartitionConfig =
  Interval :: string
  Premake :: int
  Retention :: string
  DatetimeString :: string
  OptimizeConstraint :: int
  DefaultPartition :: bool

definition UpdatePartitionConfig ::
  "pool \<Rightarrow> SchemaName \<Rightarrow> QueueName \<Rightarrow> PartitionConfig \<Rightarrow> error option \<times> pool" where
  "UpdatePartitionConfig p schema name cfg =
     (let fqn = MakeFQN schema name
      in case pool_Exec (UpdatePartConfig fqn (Interval cfg) (Premake cfg) (Retention cfg)
                           (DatetimeString cfg) (OptimizeConstraint cfg)) p of
           (False, p1) \<Rightarrow> (Some (wrapPartmanErr ''update_config'' fqn), p1)
         | (True, p1) \<Rightarrow> (None, p1))"

text \<open>
  \<open>GetPartitionConfig\<close>: five fields from the configuration row (a missing row is the
  error of \<open>Scan\<close>), the sixth from the presence of a child whose name matches
  \<open>%_default\<close>.
\<close>

definition has_default_child :: "database \<Rightarrow> SchemaName \<Rightarrow> QueueName \<Rightarrow> bool" where
  "has_default_child db schema name =
     list_ex (\<lambda>(s, parent, child). s = schema \<and> parent = name \<and> like ''%_default'' child)
       (db_children db)"

definition GetPartitionConfig ::
  "pool \<Rightarrow> SchemaName \<Rightarrow> QueueName \<Rightarrow> (error + PartitionConfig) \<times> pool" where
  "GetPartitionConfig p schema name =
     (let fqn = MakeFQN schema name
      in case do_call (QueryPartConfig fqn) p of
           (True, p1) \<Rightarrow> (Inl (wrapPartmanErr ''get_config'' fqn), p1)
         | (False, p1) \<Rightarrow>
             (case filter (\<lambda>r. parent_table r = fqn) (db_part_config (committed p1)) of
                [] \<Rightarrow> (Inl (wrapPartmanErr ''get_config'' fqn), p1)
              | r # _ \<Rightarrow>
                  (case do_call (QueryDefaultPartition schema name) p1 of
                     (True, p2) \<Rightarrow> (Inl (wrapPartmanErr ''check_default_partition'' fqn), p2)
                   | (False, p2) \<Rightarrow>
                       (Inr \<lparr>Interval = partition_interval r, Premake = premake r,
                             Retention = retention r, DatetimeString = datetime_string r,
                             OptimizeConstraint = optimize_constraint r,
                             DefaultPartition =
                               has_default_child (committed p2) schema name\<rparr>, p2))))"

text \<open>
  Two example pools: a queue \<open>public.q\<close> with its primary-key index, a standard index, and
  two indexes created by hand; and a partitioned queue with its configuration row and a
  default partition.
\<close>

definition example_index_pool :: pool where
  "example_index_pool =
     \<lparr>committed = empty_database\<lparr>db_indexes :=
        [\<lparr>idx_schema = ''public'', idx_table = ''q'', idx_name = ''q_pkey'',
           idx_def = ''CREATE UNIQUE INDEX q_pkey ON public.q USING btree (id)''\<rparr>,
         \<lparr>idx_schema = ''public'', idx_table = ''q'', idx_name = ''q_user_idx'',
           idx_def = ''CREATE INDEX q_user_idx ON public.q USING hash (error_detail)''\<rparr>,
         \<lparr>idx_schema = ''public'', idx_table = ''q'', idx_name = ''q_metadata_idx'',
           idx_def = ''CREATE INDEX q_metadata_idx ON public.q USING gin (metadata) WHERE (processed_at IS NULL)''\<rparr>,
         \<lparr>idx_schema = ''public'', idx_table = ''q'', idx_name = ''audit_metadata_idx'',
           idx_def = ''CREATE INDEX audit_metadata_idx ON public.q USING gin (metadata)''\<rparr>]\<rparr>,
      faults = [], calls = []\<rparr>"

definition example_partman_pool :: "bool list \<Rightarrow> pool" where
  "example_partman_pool fs =
     \<lparr>committed = empty_database\<lparr>
        db_part_config :=
          [\<lparr>parent_table = ''public.q'', partition_interval = ''1 day'', premake = 7,
             retention = ''14 days'', datetime_string = ''YYYYMMDD'', optimize_constraint = 30,
             retention_keep_index = True, retention_keep_table = False,
             ignore_default_data = True\<rparr>],
        db_children := [(''public'', ''q'', ''q_default'')]\<rparr>,
      faults = fs, calls = []\<rparr>"

definition example_config :: PartitionConfig where
  "example_config =
     \<lparr>Interval = ''1 week'', Premake = 5, Retention = ''30 days'', DatetimeString = ''YYYYMMDD'',
      OptimizeConstraint = 20, DefaultPartition = False\<rparr>"

section \<open>Properties of the name model\<close>

lemma Index_dot_absent: "CHR ''.'' \<notin> set s \<Longrightarrow> Index s ''.'' = None"
  by (induction s) auto

lemma Index_dot_first:
  "CHR ''.'' \<notin> set a \<Longrightarrow> Index (a @ CHR ''.'' # b) ''.'' = Some (length a)"
  by (induction a) auto

lemma Split_at_first_dot:
  "CHR ''.'' \<notin> set a \<Longrightarrow> Split (a @ CHR ''.'' # b) = Inr (a, b)"
  by (simp add: Split_def SplitN2_def Index_dot_first)

lemma Split_no_dot:
  "CHR ''.'' \<notin> set f \<Longrightarrow> Split f = Inl (InvalidFQNFormat f)"
  by (simp add: Split_def SplitN2_def Index_dot_absent)

lemma lower_iff:
  "byte_between (CHR ''a'') c (CHR ''z'') \<longleftrightarrow> c \<in> set ''abcdefghijklmnopqrstuvwxyz''"
proof
  assume "byte_between (CHR ''a'') c (CHR ''z'')"
  then have "97 \<le> (of_char c :: nat) \<and> (of_char c :: nat) < 123"
    by (simp add: byte_between_def)
  then have "(of_char c :: nat) \<in> {97 ..< 123}" by (simp only: atLeastLessThan_iff)
  then have "(of_char c :: nat) \<in> set [97 ..< 123]" by (simp only: set_upt)
  moreover have "[97 ..< 123] = map of_char ''abcdefghijklmnopqrstuvwxyz''"
    by (simp add: upt_rec)
  ultimately have "(of_char c :: nat) \<in> set (map of_char ''abcdefghijklmnopqrstuvwxyz'')"
    by (simp only:)
  then have "(of_char c :: nat) \<in> of_char ` set ''abcdefghijklmnopqrstuvwxyz''"
    by (simp only: set_map)
  then obtain d where "d \<in> set ''abcdefghijklmnopqrstuvwxyz''" "(of_char c :: nat) = of_char d"
    by (rule imageE)
  then show "c \<in> set ''abcdefghijklmnopqrstuvwxyz''"
    by (simp only: of_char_eq_iff)
next
  assume "c \<in> set ''abcdefghijklmnopqrstuvwxyz''"
  then show "byte_between (CHR ''a'') c (CHR ''z'')"
    by (auto simp: byte_between_def)
qed

lemma upper_iff:
  "byte_between (CHR ''A'') c (CHR ''Z'') \<longleftrightarrow> c \<in> set ''ABCDEFGHIJKLMNOPQRSTUVWXYZ''"
proof
  assume "byte_between (CHR ''A'') c (CHR ''Z'')"
  then have "65 \<le> (of_char c :: nat) \<and> (of_char c :: nat) < 91"
    by (simp add: byte_between_def)
  then have "(of_char c :: nat) \<in> {65 ..< 91}" by (simp only: atLeastLessThan_iff)
  then have "(of_char c :: nat) \<in> set [65 ..< 91]" by (simp only: set_upt)
  moreover have "[65 ..< 91] = map of_char ''ABCDEFGHIJKLMNOPQRSTUVWXYZ''"
    by (simp add: upt_rec)
  ultimately have "(of_char c :: nat) \<in> set (map of_char ''ABCDEFGHIJKLMNOPQRSTUVWXYZ'')"
    by (simp only:)
  then have "(of_char c :: nat) \<in> of_char ` set ''ABCDEFGHIJKLMNOPQRSTUVWXYZ''"
    by (simp only: set_map)
  then obtain d where "d \<in> set ''ABCDEFGHIJKLMNOPQRSTUVWXYZ''" "(of_char c :: nat) = of_char d"
    by (rule imageE)
  then show "c \<in> set ''ABCDEFGHIJKLMNOPQRSTUVWXYZ''"
    by (simp only: of_char_eq_iff)
next
  assume "c \<in> set ''ABCDEFGHIJKLMNOPQRSTUVWXYZ''"
  then show "byte_between (CHR ''A'') c (CHR ''Z'')"
    by (auto simp: byte_between_def)
qed

lemma letters_iff:
  "(byte_between (CHR ''a'') c (CHR ''z'') \<or> byte_between (CHR ''A'') c (CHR ''Z''))
     \<longleftrightarrow> c \<in> ascii_letters"
proof -
  have eq: "ascii_letters = set (''abcdefghijklmnopqrstuvwxyz'' @ ''ABCDEFGHIJKLMNOPQRSTUVWXYZ'')"
    by (simp add: ascii_letters_def)
  show ?thesis by (simp only: eq lower_iff upper_iff set_append Un_iff)
qed

text \<open>
  Claim C6. \<open>Valid\<close> holds exactly of the names that are non-empty, at most 63 bytes
  long and start with an ASCII letter or an underscore; the schema check is the same
  function. \<open>valid_queue\<close> is valid; the empty name, \<open>123queue\<close> and every 64-byte
  name are not.
\<close>

theorem Valid_iff:
  "(Valid N \<longleftrightarrow>
      N \<noteq> [] \<and> length N \<le> 63 \<and> (\<exists>c cs. N = c # cs \<and> (c \<in> ascii_letters \<or> c = CHR ''_'')))
   \<and> SchemaName_Valid N = Valid N
   \<and> Valid ''valid_queue'' \<and> \<not> Valid '''' \<and> \<not> Valid ''123queue''
   \<and> (length N = 64 \<longrightarrow> \<not> Valid N)"
proof -
  have main: "Valid N \<longleftrightarrow>
      N \<noteq> [] \<and> length N \<le> 63 \<and> (\<exists>c cs. N = c # cs \<and> (c \<in> ascii_letters \<or> c = CHR ''_''))"
    by (cases N) (auto simp add: Valid_def maxIdentifierLength_def letters_iff [symmetric])
  have ex1: "Valid ''valid_queue''"
    by (simp add: Valid_def maxIdentifierLength_def byte_between_def)
  have ex2: "\<not> Valid ''''"
    by (simp add: Valid_def)
  have ex3: "\<not> Valid ''123queue''"
    by (simp add: Valid_def maxIdentifierLength_def byte_between_def)
  have ex4: "length N = 64 \<longrightarrow> \<not> Valid N"
    by (auto simp: Valid_def maxIdentifierLength_def)
  show ?thesis
    using main ex1 ex2 ex3 ex4 by (simp only: SchemaName_Valid_def simp_thms)
qed

text \<open>The 64-byte instance and a name starting with an underscore.\<close>

theorem Valid_iff_witness:
  "length (replicate 64 (CHR ''q'')) = 64 \<and> \<not> Valid (replicate 64 (CHR ''q''))
   \<and> Valid ''_queue''"
  using Valid_iff [of "replicate 64 (CHR ''q'')"] Valid_iff [of "''_queue''"]
  by simp

text \<open>
  Claim C10. \<open>Split\<close> succeeds on every string that contains a dot: the schema is the
  part before the first dot (possibly empty) and the queue name is everything after it,
  further dots included. It fails exactly on the strings without a dot.
\<close>

theorem Split_first_dot:
  "(CHR ''.'' \<in> set f \<longrightarrow>
      (\<exists>a b. f = a @ ''.'' @ b \<and> CHR ''.'' \<notin> set a \<and> Split f = Inr (a, b)))
   \<and> (CHR ''.'' \<notin> set f \<longrightarrow> Split f = Inl (InvalidFQNFormat f))
   \<and> Split ''a.b.c'' = Inr (''a'', ''b.c'')
   \<and> Split ''.x'' = Inr ('''', ''x'')
   \<and> Split '''' = Inl (InvalidFQNFormat '''')"
proof -
  have "\<exists>a b. f = a @ ''.'' @ b \<and> CHR ''.'' \<notin> set a \<and> Split f = Inr (a, b)"
    if "CHR ''.'' \<in> set f"
  proof -
    from that obtain a b where f: "f = a @ CHR ''.'' # b" and a: "CHR ''.'' \<notin> set a"
      by (meson split_list_first)
    then have "Split f = Inr (a, b)" by (simp add: Split_at_first_dot)
    with f a show ?thesis by auto
  qed
  moreover have "Split ''a.b.c'' = Inr (''a'', ''b.c'')"
    using Split_at_first_dot [of "''a''" "''b.c''"] by simp
  moreover have "Split ''.x'' = Inr ('''', ''x'')"
    using Split_at_first_dot [of "''''" "''x''"] by simp
  ultimately show ?thesis
    by (simp add: Split_no_dot)
qed

text \<open>The name of the unit test, and a name without a separator.\<close>

theorem Split_first_dot_witness:
  "CHR ''.'' \<in> set ''public.test_queue''
   \<and> (\<exists>a b. ''public.test_queue'' = a @ ''.'' @ b \<and> CHR ''.'' \<notin> set a
          \<and> Split ''public.test_queue'' = Inr (a, b))
   \<and> CHR ''.'' \<notin> set ''invalid''
   \<and> Split ''invalid'' = Inl (InvalidFQNFormat ''invalid'')"
  using Split_first_dot [of "''public.test_queue''"] Split_first_dot [of "''invalid''"]
  by simp

text \<open>
  Claim C5 as stated fails: \<open>Valid\<close> only looks at the length and the first byte, so a
  valid schema name may contain the separator, and \<open>Split\<close> then cuts inside it.
\<close>

theorem MakeFQN_Split_counterexample:
  "Valid ''a.b'' \<and> Valid ''c'' \<and> Split (MakeFQN ''a.b'' ''c'') \<noteq> Inr (''a.b'', ''c'')"
  by (simp add: Valid_def maxIdentifierLength_def byte_between_def MakeFQN_def Split_def SplitN2_def)

text \<open>
  Claim C5, amended. For every schema name without a dot and every queue name,
  splitting the composed name gives back exactly the two parts.
\<close>

theorem MakeFQN_Split_inverse:
  "CHR ''.'' \<notin> set s \<Longrightarrow> Split (MakeFQN s n) = Inr (s, n)"
  by (simp add: MakeFQN_def Split_at_first_dot)

text \<open>The names of the unit test are valid and the schema has no dot.\<close>

theorem MakeFQN_Split_inverse_witness:
  "CHR ''.'' \<notin> set ''public'' \<and> Valid ''public'' \<and> Valid ''test_queue''
   \<and> Split (MakeFQN ''public'' ''test_queue'') = Inr (''public'', ''test_queue'')"
  using MakeFQN_Split_inverse [of "''public''" "''test_queue''"]
  by (simp add: Valid_def maxIdentifierLength_def byte_between_def)

section \<open>Evaluating the hash\<close>

lemma rotr_eval:
  "n \<le> 32 \<Longrightarrow> rotr n x = drop_bit n x OR push_bit (32 - n) (take_bit n x)"
  unfolding rotr_def by (rule bit_word_eqI) (auto simp: bit_simps)

lemmas sha256_eval = bsig0_def bsig1_def ssig0_def ssig1_def Ch_def Maj_def rotr_eval

lemma replicate_numeral: "replicate (numeral k) x = x # replicate (pred_numeral k) x"
  by (simp add: numeral_eq_Suc)

lemma length_sha256_digest: "length (sha256_digest s) = 32"
  by (induction s rule: sha256_digest.induct) (simp add: word_bytes_def)

lemma length_EncodeToString: "length (EncodeToString src) = 2 * length src"
  by (induction src) (simp_all add: EncodeToString_def)

lemma length_hash_suffix: "length (hash_suffix cols) = 8"
  by (simp add: hash_suffix_def Sum256_def Let_def length_sha256_digest length_EncodeToString)

text \<open>
  Two hashes computed step by step: the padded block as sixteen words, the state after
  the 64 rounds, and the first eight hexadecimal digits of the digest.
\<close>

lemma sha256_words_created_at:
  "be_words (sha256_pad ''created_at'') =
     [0x63726561, 0x7465645f, 0x61748000, 0x00000000,
      0x00000000, 0x00000000, 0x00000000, 0x00000000,
      0x00000000, 0x00000000, 0x00000000, 0x00000000,
      0x00000000, 0x00000000, 0x00000000, 0x00000050]"
  by (simp add: sha256_pad_def be64_def replicate_numeral be_word_def)

lemma sha256_rounds_created_at:
  "sha256_rounds
     [0x63726561, 0x7465645f, 0x61748000, 0x00000000,
      0x00000000, 0x00000000, 0x00000000, 0x00000000,
      0x00000000, 0x00000000, 0x00000000, 0x00000000,
      0x00000000, 0x00000000, 0x00000000, 0x00000050]
     sha256_init =
     (0x7e6ec372, 0xe60a6a94, 0xcb0421de, 0xa6b1ab4e,
      0xa127bd4c, 0x17bb213e, 0x4676d25a, 0x9e233b99)"
  by (simp add: sha256_rounds_def sha256_K_def sha256_eval sha256_init_def)

lemma hash_suffix_created_at: "hash_suffix [''created_at''] = ''e878a9d9''"
proof -
  have len: "length (sha256_pad ''created_at'') div 64 = Suc 0"
    by (simp add: sha256_pad_def be64_def)
  have "Sum256 ''created_at'' =
          sha256_digest (sha256_block sha256_init (be_words (sha256_pad ''created_at'')))"
    unfolding Sum256_def Let_def len by (simp add: sha256_words_created_at)
  then show ?thesis
    unfolding hash_suffix_def Join.simps sha256_words_created_at sha256_block_def sha256_rounds_created_at
    by (simp add: sha256_init_def word_bytes_def EncodeToString_def hextable_def)
qed

lemma sha256_words_paren_created_at:
  "be_words (sha256_pad ''(created_at)'') =
     [0x28637265, 0x61746564, 0x5f617429, 0x80000000,
      0x00000000, 0x00000000, 0x00000000, 0x00000000,
      0x00000000, 0x00000000, 0x00000000, 0x00000000,
      0x00000000, 0x00000000, 0x00000000, 0x00000060]"
  by (simp add: sha256_pad_def be64_def replicate_numeral be_word_def)

lemma sha256_rounds_paren_created_at:
  "sha256_rounds
     [0x28637265, 0x61746564, 0x5f617429, 0x80000000,
      0x00000000, 0x00000000, 0x00000000, 0x00000000,
      0x00000000, 0x00000000, 0x00000000, 0x00000000,
      0x00000000, 0x00000000, 0x00000000, 0x00000060]
     sha256_init =
     (0x377c9fa5, 0xf4279459, 0x31127fc5, 0xbff4fcf4,
      0x064f9457, 0xae5204e5, 0xa2f74561, 0x52e05b50)"
  by (simp add: sha256_rounds_def sha256_K_def sha256_eval sha256_init_def)

lemma hash_suffix_paren_created_at: "hash_suffix [''(created_at)''] = ''a186860c''"
proof -
  have len: "length (sha256_pad ''(created_at)'') div 64 = Suc 0"
    by (simp add: sha256_pad_def be64_def)
  have "Sum256 ''(created_at)'' =
          sha256_digest (sha256_block sha256_init (be_words (sha256_pad ''(created_at)'')))"
    unfolding Sum256_def Let_def len by (simp add: sha256_words_paren_created_at)
  then show ?thesis
    unfolding hash_suffix_def Join.simps sha256_words_paren_created_at sha256_block_def sha256_rounds_paren_created_at
    by (simp add: sha256_init_def word_bytes_def EncodeToString_def hextable_def)
qed

section \<open>Properties of index naming\<close>

lemma Replace_replacer_Cons:
  "Replace replacer (c # cs) =
     (if c \<in> set stripped_chars then Replace replacer cs
      else if c = CHR ''-'' \<and> prefix ''>>'' cs then CHR ''_'' # Replace replacer (tl (tl cs))
      else if c = CHR ''-'' \<and> prefix ''>'' cs then CHR ''_'' # Replace replacer (tl cs)
      else if c = CHR '' '' then CHR ''_'' # Replace replacer cs
      else c # Replace replacer cs)"
  by (auto simp add: replacer_def stripped_chars_def drop_Suc)

lemma strip_space_Nil: "strip_space [] = []"
  by (simp add: strip_space_def remove_chars_def)

lemma strip_space_Cons:
  "strip_space (c # cs) =
     (if c \<in> set stripped_chars then strip_space cs
      else if c = CHR '' '' then CHR ''_'' # strip_space cs
      else c # strip_space cs)"
  by (simp add: strip_space_def remove_chars_def)

lemma ReplaceAll3_no_gt:
  "\<not> prefix ''>'' cs \<Longrightarrow> \<not> prefix ''>'' (ReplaceAll cs ''->>'' ''_'')"
  by (cases cs) auto

lemma arrows_Nil: "arrows [] = []"
  by (simp add: arrows_def drop_Suc)

lemma arrows_Cons:
  "arrows (c # cs) =
     (if c = CHR ''-'' \<and> prefix ''>>'' cs then CHR ''_'' # arrows (tl (tl cs))
      else if c = CHR ''-'' \<and> prefix ''>'' cs then CHR ''_'' # arrows (tl cs)
      else c # arrows cs)"
proof (cases "c = CHR ''-''")
  case False
  then show ?thesis by (simp add: arrows_def drop_Suc)
next
  case dash: True
  show ?thesis
  proof (cases "prefix ''>'' cs")
    case False
    then have "\<not> prefix ''>'' (ReplaceAll cs ''->>'' ''_'')" by (rule ReplaceAll3_no_gt)
    moreover from False have "\<not> prefix ''>>'' cs" by (auto simp: prefix_def)
    ultimately show ?thesis using False dash by (simp add: arrows_def drop_Suc)
  next
    case True
    then obtain r where cs: "cs = CHR ''>'' # r" by (auto simp: prefix_def)
    show ?thesis
    proof (cases "prefix ''>'' r")
      case True
      then show ?thesis using dash cs by (simp add: arrows_def drop_Suc)
    next
      case False
      then show ?thesis using dash cs by (simp add: arrows_def drop_Suc)
    qed
  qed
qed

lemma Replace_replacer_scan: "Replace replacer s = strip_space (arrows s)"
proof (induction "length s" arbitrary: s rule: less_induct)
  case less
  show ?case
  proof (cases s)
    case Nil
    then show ?thesis by (simp add: arrows_Nil strip_space_Nil)
  next
    case (Cons c cs)
    have ih: "Replace replacer t = strip_space (arrows t)" if "length t \<le> length cs" for t
      using less [of t] that Cons by simp
    have i0: "Replace replacer cs = strip_space (arrows cs)" by (rule ih) simp
    have i1: "Replace replacer (tl cs) = strip_space (arrows (tl cs))" by (rule ih) simp
    have i2: "Replace replacer (tl (tl cs)) = strip_space (arrows (tl (tl cs)))"
      by (rule ih) (simp add: le_diff_conv)
    have nd: "CHR ''-'' \<notin> set stripped_chars" "CHR ''_'' \<notin> set stripped_chars"
      by (simp_all add: stripped_chars_def)
    show ?thesis
      unfolding Cons Replace_replacer_Cons arrows_Cons
      using nd by (simp add: strip_space_Cons i0 i1 i2)
  qed
qed

lemma clean_column_scan: "clean_column col = scan_clean_column col"
  by (simp add: clean_column_def scan_clean_column_def Let_def maxColumnNameLength_def
      Replace_replacer_scan strip_space_def arrows_def)

lemma generateIndexName_steps:
  "generateIndexName t cols ty = name_by_steps clean_column t cols ty"
  by (simp add: generateIndexName_def name_by_steps_def Let_def hash_suffix_def hashLength_def
      maxIdentifierLength_def)

lemma generateIndexName_base:
  "generateIndexName t cols ty = take 63 (base_name t cols ty)"
  by (simp add: generateIndexName_steps name_by_steps_def base_name_def)

text \<open>
  Claim C1 as stated fails when the steps are applied one after the other in the order of
  the sentence: removing the quotes first brings \<open>->\<close> and \<open>>\<close> together, which the
  single scan of the code never sees as \<open>->>\<close>. For the JSON key \<open>>\<close> the code keeps
  the \<open>>\<close> and the worded algorithm does not.
\<close>

theorem generateIndexName_spec_counterexample:
  "generateIndexName ''q'' [''payload->'' @ [CHR 0x27, CHR ''>'', CHR 0x27]] ''gin''
     \<noteq> spec_generateIndexName ''q'' [''payload->'' @ [CHR 0x27, CHR ''>'', CHR 0x27]] ''gin''"
proof -
  have c: "clean_column (''payload->'' @ [CHR 0x27, CHR ''>'', CHR 0x27]) = ''payload_>''"
    by (simp add: clean_column_def replacer_def Let_def maxColumnNameLength_def)
  have s: "spec_clean_column (''payload->'' @ [CHR 0x27, CHR ''>'', CHR 0x27]) = ''payload_''"
    by (simp add: spec_clean_column_def remove_chars_def stripped_chars_def)
  have "length (generateIndexName ''q'' [''payload->'' @ [CHR 0x27, CHR ''>'', CHR 0x27]] ''gin'')
          = 28"
    unfolding generateIndexName_steps name_by_steps_def list.map c
    by (simp add: length_hash_suffix)
  moreover have
    "length (spec_generateIndexName ''q'' [''payload->'' @ [CHR 0x27, CHR ''>'', CHR 0x27]] ''gin'')
       = 27"
    unfolding spec_generateIndexName_def name_by_steps_def list.map s
    by (simp add: length_hash_suffix)
  ultimately show ?thesis by auto
qed

text \<open>
  Claim C1, amended. \<open>generateIndexName\<close> is the worded algorithm with the operators
  replaced first: in each column expression replace \<open>->>\<close>, then \<open>->\<close>, by an
  underscore, then remove the four punctuation characters, then replace spaces by an
  underscore, and truncate to 20 bytes; join with the table name by underscores; append
  the type unless it is empty or \<open>btree\<close>; append the first eight hexadecimal digits of
  the SHA-256 hash of the comma-joined original columns; append \<open>_idx\<close>; truncate to 63
  bytes. The name for \<open>events\<close>, \<open>created_at\<close>, \<open>btree\<close> is
  \<open>events_created_at_e878a9d9_idx\<close>, shorter than 63 bytes.
\<close>

theorem generateIndexName_scan:
  "generateIndexName t cols ty = scan_generateIndexName t cols ty
   \<and> generateIndexName ''events'' [''created_at''] ''btree'' = ''events_created_at_e878a9d9_idx''
   \<and> length (generateIndexName ''events'' [''created_at''] ''btree'') < 63"
proof -
  have "clean_column = scan_clean_column"
    by (rule ext) (rule clean_column_scan)
  then have "generateIndexName t cols ty = scan_generateIndexName t cols ty"
    by (simp add: generateIndexName_steps scan_generateIndexName_def)
  moreover have c: "clean_column ''created_at'' = ''created_at''"
    by (simp add: clean_column_def replacer_def Let_def maxColumnNameLength_def)
  have "generateIndexName ''events'' [''created_at''] ''btree'' = ''events_created_at_e878a9d9_idx''"
    by (simp add: generateIndexName_steps name_by_steps_def c hash_suffix_created_at)
  ultimately show ?thesis by simp
qed

text \<open>
  Claim C7 as stated fails: the final truncation to 63 bytes can cut the hash away. Two
  different column lists with the same cleaned columns on the table \<open>events\<close> get the
  same name.
\<close>

theorem generateIndexName_collision_counterexample:
  "[''(customer_account_name)'', ''customer_billing_city'', ''customer_shipping_city'']
     \<noteq> [''customer_account_name'', ''customer_billing_city'', ''customer_shipping_city'']
   \<and> map clean_column
         [''(customer_account_name)'', ''customer_billing_city'', ''customer_shipping_city'']
       = map clean_column
           [''customer_account_name'', ''customer_billing_city'', ''customer_shipping_city'']
   \<and> generateIndexName ''events''
         [''(customer_account_name)'', ''customer_billing_city'', ''customer_shipping_city''] ''''
       = generateIndexName ''events''
           [''customer_account_name'', ''customer_billing_city'', ''customer_shipping_city''] ''''"
proof -
  have c1: "clean_column ''(customer_account_name)'' = ''customer_account_nam''"
    by (simp add: clean_column_def replacer_def Let_def maxColumnNameLength_def)
  have c2: "clean_column ''customer_account_name'' = ''customer_account_nam''"
    by (simp add: clean_column_def replacer_def Let_def maxColumnNameLength_def)
  have c3: "clean_column ''customer_billing_city'' = ''customer_billing_cit''"
    by (simp add: clean_column_def replacer_def Let_def maxColumnNameLength_def)
  have c4: "clean_column ''customer_shipping_city'' = ''customer_shipping_ci''"
    by (simp add: clean_column_def replacer_def Let_def maxColumnNameLength_def)
  show ?thesis
    by (simp add: generateIndexName_base base_name_def c1 c2 c3 c4)
qed

text \<open>
  Claim C7, amended. When neither name is cut by the final truncation (the name before
  truncation has at most 63 bytes) and the first eight hexadecimal digits of the hashes of
  the two comma-joined original column lists differ, the two generated names differ.
\<close>

theorem generateIndexName_distinct:
  assumes "length (base_name t c1 ty) \<le> 63" and "length (base_name t c2 ty) \<le> 63"
    and "hash_suffix c1 \<noteq> hash_suffix c2"
  shows "generateIndexName t c1 ty \<noteq> generateIndexName t c2 ty"
proof
  assume "generateIndexName t c1 ty = generateIndexName t c2 ty"
  with assms(1,2) have "base_name t c1 ty = base_name t c2 ty"
    by (simp add: generateIndexName_base)
  then have
    "(Join (t # map clean_column c1) ''_''
        @ (if ty = '''' \<or> ty = ''btree'' then '''' else ''_'' @ ty) @ ''_'')
       @ (hash_suffix c1 @ ''_idx'')
     = (Join (t # map clean_column c2) ''_''
        @ (if ty = '''' \<or> ty = ''btree'' then '''' else ''_'' @ ty) @ ''_'')
       @ (hash_suffix c2 @ ''_idx'')"
    by (simp add: base_name_def)
  moreover have "length (hash_suffix c1 @ ''_idx'') = length (hash_suffix c2 @ ''_idx'')"
    by (simp add: length_hash_suffix)
  ultimately have "hash_suffix c1 @ ''_idx'' = hash_suffix c2 @ ''_idx''"
    using append_eq_append_conv by blast
  then show False using assms(3) by simp
qed

text \<open>The column \<open>created_at\<close> with and without parentheses on the table \<open>events\<close>.\<close>

theorem generateIndexName_distinct_witness:
  "length (base_name ''events'' [''created_at''] ''btree'') \<le> 63
   \<and> length (base_name ''events'' [''(created_at)''] ''btree'') \<le> 63
   \<and> hash_suffix [''created_at''] \<noteq> hash_suffix [''(created_at)'']
   \<and> clean_column ''created_at'' = clean_column ''(created_at)''
   \<and> generateIndexName ''events'' [''created_at''] ''btree''
       \<noteq> generateIndexName ''events'' [''(created_at)''] ''btree''"
proof -
  have l1: "length (base_name ''events'' [''created_at''] ''btree'') \<le> 63"
    by (simp add: base_name_def clean_column_def replacer_def Let_def maxColumnNameLength_def
        length_hash_suffix)
  have l2: "length (base_name ''events'' [''(created_at)''] ''btree'') \<le> 63"
    by (simp add: base_name_def clean_column_def replacer_def Let_def maxColumnNameLength_def
        length_hash_suffix)
  have h: "hash_suffix [''created_at''] \<noteq> hash_suffix [''(created_at)'']"
    by (simp add: hash_suffix_created_at hash_suffix_paren_created_at)
  have c: "clean_column ''created_at'' = clean_column ''(created_at)''"
    by (simp add: clean_column_def replacer_def Let_def maxColumnNameLength_def)
  show ?thesis
    using generateIndexName_distinct [OF l1 l2 h] l1 l2 h c by simp
qed

section \<open>Properties of the queue manager\<close>

lemma do_call_result:
  "do_call c p = (f, p1) \<Longrightarrow>
     committed p1 = committed p \<and> calls p1 = calls p @ [c]
     \<and> (f \<longrightarrow> faults p \<noteq> [])"
  by (auto simp: do_call_def split: list.splits)

lemma do_call_no_faults:
  "faults p = [] \<Longrightarrow> do_call c p = (False, p\<lparr>calls := calls p @ [c]\<rparr>)"
  by (simp add: do_call_def)

lemma tx_Exec_result:
  "tx_Exec s t = (ok, t1) \<Longrightarrow>
     committed (conn t1) = committed (conn t) \<and> closed t1 = closed t
     \<and> calls (conn t1) = calls (conn t) @ [TxExec s]
     \<and> (ok \<longrightarrow> work t1 = apply_stmt s (work t))"
  by (auto simp: tx_Exec_def split: prod.splits bool.splits dest: do_call_result)

lemma createIndexes_loop_result:
  "createIndexes_loop t schema name xs = (r, t1) \<Longrightarrow>
     committed (conn t1) = committed (conn t) \<and> closed t1 = closed t
     \<and> (r = None \<longrightarrow>
          work t1 = fold apply_stmt
                      (map (\<lambda>(sfx, def). CreateIndex (name @ sfx) schema name ('' '' @ def)) xs)
                      (work t)
          \<and> calls (conn t1) = calls (conn t)
              @ map TxExec
                  (map (\<lambda>(sfx, def). CreateIndex (name @ sfx) schema name ('' '' @ def)) xs))"
proof (induction xs arbitrary: t)
  case Nil
  then show ?case by simp
next
  case (Cons x xs)
  obtain sfx def where x: "x = (sfx, def)" by (cases x)
  obtain ok t0 where e: "tx_Exec (CreateIndex (name @ sfx) schema name ('' '' @ def)) t = (ok, t0)"
    by (cases "tx_Exec (CreateIndex (name @ sfx) schema name ('' '' @ def)) t")
  note r = tx_Exec_result [OF e]
  show ?case
  proof (cases ok)
    case False
    with Cons.prems x e r show ?thesis by auto
  next
    case True
    with Cons.prems x e have "createIndexes_loop t0 schema name xs = (r, t1)" by simp
    from Cons.IH [OF this] r True x show ?thesis by simp
  qed
qed

lemma CreateSimple_cases:
  assumes "CreateSimple p schema name = (r, p')"
  shows "committed p' = committed p \<and> r \<noteq> None
         \<or> (r = None \<and> \<not> table_exists (committed p) schema name
            \<and> committed p' = fold apply_stmt (simple_queue_stmts schema name) (committed p)
            \<and> calls p' = calls p @ [QueryExists schema name, Begin]
                 @ map TxExec (simple_queue_stmts schema name) @ [Commit])"
proof -
  obtain e p1 where ex: "Exists p schema name = (e, p1)" by (cases "Exists p schema name")
  obtain f0 q0 where d0: "do_call (QueryExists schema name) p = (f0, q0)"
    by (cases "do_call (QueryExists schema name) p")
  note r0 = do_call_result [OF d0]
  show ?thesis
  proof (cases e)
    case (Inl err)
    with assms ex d0 r0 show ?thesis
      by (auto simp: CreateSimple_def Exists_def Let_def split: bool.splits)
  next
    case (Inr b)
    with ex d0 have p1: "p1 = q0" and b: "b = table_exists (committed p) schema name"
      using r0 by (auto simp: Exists_def Let_def split: bool.splits)
    show ?thesis
    proof (cases b)
      case True
      with assms ex Inr p1 r0 show ?thesis by (auto simp: CreateSimple_def Let_def)
    next
      case nb: False
      show ?thesis
      proof (cases "pool_Begin p1")
        case (Inl p2)
        then obtain f where "do_call Begin p1 = (f, p2)"
          by (auto simp: pool_Begin_def split: prod.splits bool.splits)
        from do_call_result [OF this] assms ex Inr nb Inl p1 r0 show ?thesis
          by (auto simp: CreateSimple_def Let_def)
      next
        case (Inr t)
        then have dB: "do_call Begin p1 = (False, conn t)" and w: "work t = committed (conn t)"
          and c: "closed t = False"
          by (auto simp: pool_Begin_def split: prod.splits bool.splits)
        note rB = do_call_result [OF dB]
        obtain k1 t1 where ct: "tx_Exec (CreateTable schema name False) t = (k1, t1)"
          by (cases "tx_Exec (CreateTable schema name False) t")
        note r1 = tx_Exec_result [OF ct]
        show ?thesis
        proof (cases k1)
          case False
          with assms ex \<open>e = Inr b\<close> nb Inr ct r1 rB p1 r0 c show ?thesis
            by (auto simp: CreateSimple_def Let_def createTable_def tx_Rollback_def)
        next
          case k1: True
          obtain r2 t2 where ci: "createIndexes t1 schema name = (r2, t2)"
            by (cases "createIndexes t1 schema name")
          then have "createIndexes_loop t1 schema name standard_indexes = (r2, t2)"
            by (simp add: createIndexes_def)
          note r2 = createIndexes_loop_result [OF this]
          show ?thesis
          proof (cases r2)
            case (Some err)
            with assms ex \<open>e = Inr b\<close> nb Inr ct k1 ci r1 r2 rB p1 r0 c show ?thesis
              by (auto simp: CreateSimple_def Let_def createTable_def tx_Rollback_def)
          next
            case None
            obtain f3 q3 where d3: "do_call Commit (conn t2) = (f3, q3)"
              by (cases "do_call Commit (conn t2)")
            note r3 = do_call_result [OF d3]
            show ?thesis
            proof (cases f3)
              case True
              with assms ex \<open>e = Inr b\<close> nb Inr ct k1 ci None d3 r1 r2 r3 rB p1 r0 show ?thesis
                by (auto simp: CreateSimple_def Let_def createTable_def tx_Rollback_def
                    tx_Commit_def)
            next
              case False
              with assms ex \<open>e = Inr b\<close> nb Inr ct k1 ci None d3
              have res: "r = None" "p' = q3\<lparr>committed := work t2\<rparr>"
                by (auto simp: CreateSimple_def Let_def createTable_def tx_Rollback_def
                    tx_Commit_def)
              have "work t2 = fold apply_stmt (simple_queue_stmts schema name) (committed p)"
                using r2 None r1 k1 w rB p1 r0 by (simp add: simple_queue_stmts_def)
              moreover have "calls q3 = calls p @ [QueryExists schema name, Begin]
                 @ map TxExec (simple_queue_stmts schema name) @ [Commit]"
                using r3 r2 None r1 rB p1 r0 by (simp add: simple_queue_stmts_def)
              ultimately show ?thesis using res nb b by simp
            qed
          qed
        qed
      qed
    qed
  qed
qed

lemma CreateSimple_exists:
  assumes "fst (Exists p schema name) = Inr True" and "CreateSimple p schema name = (r, p')"
  shows "r = Some (QueueExistsError (MakeFQN schema name)) \<and> committed p' = committed p
         \<and> calls p' = calls p @ [QueryExists schema name]"
proof -
  obtain f0 q0 where d0: "do_call (QueryExists schema name) p = (f0, q0)"
    by (cases "do_call (QueryExists schema name) p")
  note r0 = do_call_result [OF d0]
  from assms(1) d0 have "Exists p schema name = (Inr True, q0)"
    by (auto simp: Exists_def Let_def split: bool.splits)
  with assms(2) r0 show ?thesis by (auto simp: CreateSimple_def Let_def)
qed

lemma CreateSimple_no_faults:
  assumes "faults p = []" and "\<not> table_exists (committed p) schema name"
  shows "fst (CreateSimple p schema name) = None"
proof -
  have loop: "faults (conn t) = [] \<Longrightarrow> fst (createIndexes_loop t schema name xs) = None
                \<and> faults (conn (snd (createIndexes_loop t schema name xs))) = []" for t xs
    by (induction xs arbitrary: t) (auto simp: tx_Exec_def do_call_no_faults)
  define t0 where "t0 = \<lparr>conn = p\<lparr>calls := calls p @ [QueryExists schema name, Begin]\<rparr>,
                         work = committed p, closed = False\<rparr>"
  define t1 where "t1 = snd (tx_Exec (CreateTable schema name False) t0)"
  have f1: "faults (conn t1) = []" and e1: "tx_Exec (CreateTable schema name False) t0 = (True, t1)"
    using assms(1) by (auto simp: t1_def t0_def tx_Exec_def do_call_no_faults)
  obtain r2 t2 where l2: "createIndexes_loop t1 schema name standard_indexes = (r2, t2)"
    by (cases "createIndexes_loop t1 schema name standard_indexes")
  with loop [OF f1, of standard_indexes] have r2: "r2 = None" and f2: "faults (conn t2) = []"
    by auto
  show ?thesis
    using assms e1 l2 r2 f2
    by (simp add: CreateSimple_def Exists_def Let_def do_call_no_faults pool_Begin_def t0_def
        createTable_def createIndexes_def tx_Commit_def)
qed

lemma fold_CreateIndex_tables:
  "db_tables (fold apply_stmt (map (\<lambda>(sfx, def). CreateIndex (f sfx) schema name (g def)) xs) db)
     = db_tables db"
  by (induction xs arbitrary: db) (auto split: prod.splits)

lemma index_exists_CreateIndex:
  "index_exists (apply_stmt (CreateIndex i schema name d) db) schema j
     \<longleftrightarrow> j = i \<or> index_exists db schema j"
  by (auto simp: index_exists_def list_ex_iff)

lemma index_exists_fold_CreateIndex:
  "index_exists
     (fold apply_stmt (map (\<lambda>(sfx, def). CreateIndex (f sfx) schema name (g def)) xs) db) schema j
     \<longleftrightarrow> j \<in> f ` fst ` set xs \<or> index_exists db schema j"
proof (induction xs arbitrary: db)
  case Nil
  then show ?case by simp
next
  case (Cons x xs)
  obtain sfx def where x: "x = (sfx, def)" by (cases x)
  show ?case
    unfolding x by (simp add: Cons.IH index_exists_CreateIndex del: apply_stmt.simps) auto
qed

lemma simple_queue_table:
  assumes "\<not> table_exists db schema name"
  shows "filter (\<lambda>t. tbl_schema t = schema \<and> tbl_name t = name)
           (db_tables (fold apply_stmt (simple_queue_stmts schema name) db))
         = [\<lparr>tbl_schema = schema, tbl_name = name, tbl_columns = queue_columns,
              tbl_primary_key = [''id''], tbl_partition_by = ''''\<rparr>]"
proof -
  have "filter (\<lambda>t. tbl_schema t = schema \<and> tbl_name t = name) (db_tables db) = []"
    using assms by (auto simp: table_exists_def list_ex_iff filter_empty_conv)
  then show ?thesis
    using assms by (simp add: simple_queue_stmts_def fold_CreateIndex_tables)
qed

lemma simple_queue_indexes:
  "sfx \<in> set [indexCreatedAt, indexProcessedAtNull, indexScheduledFor, indexMetadata] \<Longrightarrow>
     index_exists (fold apply_stmt (simple_queue_stmts schema name) db) schema (name @ sfx)"
  unfolding simple_queue_stmts_def fold_simps
  by (subst index_exists_fold_CreateIndex) (auto simp: standard_indexes_def)

text \<open>
  Claim C4, amended (the table has ten columns, not nine). When the probe reports that
  the table exists, \<open>CreateSimple\<close> returns \<open>QueueExistsError\<close> after the probe alone: no
  statement is executed and the database is unchanged. Every error return leaves the
  committed database unchanged. Without a failure and without the table, it succeeds, and
  a success is exactly one transaction of five statements: the ten-column table with
  primary key \<open>id\<close>, then the four standard indexes, then the commit.
\<close>

theorem CreateSimple_atomic:
  assumes "CreateSimple p schema name = (r, p')"
  shows "(fst (Exists p schema name) = Inr True \<longrightarrow>
            r = Some (QueueExistsError (MakeFQN schema name)) \<and> committed p' = committed p
            \<and> calls p' = calls p @ [QueryExists schema name])
       \<and> (r \<noteq> None \<longrightarrow> committed p' = committed p)
       \<and> (faults p = [] \<and> \<not> table_exists (committed p) schema name \<longrightarrow> r = None)
       \<and> (r = None \<longrightarrow>
            calls p' = calls p @ [QueryExists schema name, Begin]
                         @ map TxExec (simple_queue_stmts schema name) @ [Commit]
            \<and> committed p' = fold apply_stmt (simple_queue_stmts schema name) (committed p)
            \<and> filter (\<lambda>t. tbl_schema t = schema \<and> tbl_name t = name) (db_tables (committed p'))
                = [\<lparr>tbl_schema = schema, tbl_name = name, tbl_columns = queue_columns,
                     tbl_primary_key = [''id''], tbl_partition_by = ''''\<rparr>]
            \<and> length queue_columns = 10
            \<and> (\<forall>sfx \<in> set [indexCreatedAt, indexProcessedAtNull, indexScheduledFor, indexMetadata].
                  index_exists (committed p') schema (name @ sfx)))"
proof -
  note c = CreateSimple_cases [OF assms]
  have a: "fst (Exists p schema name) = Inr True \<longrightarrow>
            r = Some (QueueExistsError (MakeFQN schema name)) \<and> committed p' = committed p
            \<and> calls p' = calls p @ [QueryExists schema name]"
    using CreateSimple_exists [OF _ assms] by blast
  have b: "r \<noteq> None \<longrightarrow> committed p' = committed p"
    using c by auto
  have d: "faults p = [] \<and> \<not> table_exists (committed p) schema name \<longrightarrow> r = None"
    using CreateSimple_no_faults [of p schema name] assms by auto
  have e: "r = None \<longrightarrow>
            calls p' = calls p @ [QueryExists schema name, Begin]
                         @ map TxExec (simple_queue_stmts schema name) @ [Commit]
            \<and> committed p' = fold apply_stmt (simple_queue_stmts schema name) (committed p)
            \<and> filter (\<lambda>t. tbl_schema t = schema \<and> tbl_name t = name) (db_tables (committed p'))
                = [\<lparr>tbl_schema = schema, tbl_name = name, tbl_columns = queue_columns,
                     tbl_primary_key = [''id''], tbl_partition_by = ''''\<rparr>]
            \<and> length queue_columns = 10
            \<and> (\<forall>sfx \<in> set [indexCreatedAt, indexProcessedAtNull, indexScheduledFor, indexMetadata].
                  index_exists (committed p') schema (name @ sfx))"
  proof
    assume "r = None"
    with c have ne: "\<not> table_exists (committed p) schema name"
      and cp: "committed p' = fold apply_stmt (simple_queue_stmts schema name) (committed p)"
      and cl: "calls p' = calls p @ [QueryExists schema name, Begin]
                 @ map TxExec (simple_queue_stmts schema name) @ [Commit]"
      by auto
    have "length queue_columns = 10" by (simp add: queue_columns_def)
    with ne cp cl show "calls p' = calls p @ [QueryExists schema name, Begin]
                         @ map TxExec (simple_queue_stmts schema name) @ [Commit]
            \<and> committed p' = fold apply_stmt (simple_queue_stmts schema name) (committed p)
            \<and> filter (\<lambda>t. tbl_schema t = schema \<and> tbl_name t = name) (db_tables (committed p'))
                = [\<lparr>tbl_schema = schema, tbl_name = name, tbl_columns = queue_columns,
                     tbl_primary_key = [''id''], tbl_partition_by = ''''\<rparr>]
            \<and> length queue_columns = 10
            \<and> (\<forall>sfx \<in> set [indexCreatedAt, indexProcessedAtNull, indexScheduledFor, indexMetadata].
                  index_exists (committed p') schema (name @ sfx))"
      using simple_queue_table [OF ne] simple_queue_indexes [of _ schema name "committed p"]
      by simp
  qed
  from a b d e show ?thesis by blast
qed

text \<open>
  A second creation of the same queue, a creation whose fourth call fails, and a
  creation on an empty database.
\<close>

theorem CreateSimple_atomic_witness:
  "fst (Exists (snd (CreateSimple (fresh_pool []) ''public'' ''q'')) ''public'' ''q'') = Inr True
   \<and> fst (CreateSimple (snd (CreateSimple (fresh_pool []) ''public'' ''q'')) ''public'' ''q'')
       = Some (QueueExistsError ''public.q'')
   \<and> committed (snd (CreateSimple (snd (CreateSimple (fresh_pool []) ''public'' ''q''))
                        ''public'' ''q''))
       = committed (snd (CreateSimple (fresh_pool []) ''public'' ''q''))
   \<and> fst (CreateSimple (fresh_pool [False, False, False, True]) ''public'' ''q'') \<noteq> None
   \<and> committed (snd (CreateSimple (fresh_pool [False, False, False, True]) ''public'' ''q''))
       = empty_database
   \<and> faults (fresh_pool []) = []
   \<and> \<not> table_exists (committed (fresh_pool [])) ''public'' ''q''
   \<and> fst (CreateSimple (fresh_pool []) ''public'' ''q'') = None
   \<and> index_exists (committed (snd (CreateSimple (fresh_pool []) ''public'' ''q'')))
        ''public'' ''q_metadata_idx''"
proof -
  have e: "fst (Exists (snd (CreateSimple (fresh_pool []) ''public'' ''q'')) ''public'' ''q'')
             = Inr True"
    by code_simp
  have f: "fst (CreateSimple (fresh_pool [False, False, False, True]) ''public'' ''q'') \<noteq> None"
    by code_simp
  have n: "faults (fresh_pool []) = [] \<and> \<not> table_exists (committed (fresh_pool [])) ''public'' ''q''"
    by code_simp
  have m: "''q'' @ indexMetadata = ''q_metadata_idx''" "MakeFQN ''public'' ''q'' = ''public.q''"
    "committed (fresh_pool [False, False, False, True]) = empty_database"
    by (simp_all add: indexMetadata_def MakeFQN_def fresh_pool_def)
  note t1 = CreateSimple_atomic [OF surjective_pairing,
      of "snd (CreateSimple (fresh_pool []) ''public'' ''q'')" "''public''" "''q''"]
  note t2 = CreateSimple_atomic [OF surjective_pairing,
      of "fresh_pool [False, False, False, True]" "''public''" "''q''"]
  note t3 = CreateSimple_atomic [OF surjective_pairing, of "fresh_pool []" "''public''" "''q''"]
  have r3: "fst (CreateSimple (fresh_pool []) ''public'' ''q'') = None"
    using t3 n by blast
  from t3 r3
  have "\<forall>sfx \<in> set [indexCreatedAt, indexProcessedAtNull, indexScheduledFor, indexMetadata].
          index_exists (committed (snd (CreateSimple (fresh_pool []) ''public'' ''q'')))
            ''public'' (''q'' @ sfx)"
    by blast
  then have i: "index_exists (committed (snd (CreateSimple (fresh_pool []) ''public'' ''q'')))
        ''public'' ''q_metadata_idx''"
    unfolding m(1) [symmetric] by simp
  from t1 e have x: "fst (CreateSimple (snd (CreateSimple (fresh_pool []) ''public'' ''q''))
                        ''public'' ''q'') = Some (QueueExistsError ''public.q'')
    \<and> committed (snd (CreateSimple (snd (CreateSimple (fresh_pool []) ''public'' ''q''))
                        ''public'' ''q''))
       = committed (snd (CreateSimple (fresh_pool []) ''public'' ''q''))"
    unfolding m(2) by blast
  from t2 f have y: "committed (snd (CreateSimple (fresh_pool [False, False, False, True])
                        ''public'' ''q'')) = empty_database"
    unfolding m(3) [symmetric] by blast
  from e f n r3 i x y show ?thesis by blast
qed

text \<open>
  Claim C4 as stated fails in one word: the table that \<open>CreateSimple\<close> creates has ten
  columns, not nine.
\<close>

theorem CreateSimple_columns_counterexample:
  "fst (CreateSimple (fresh_pool []) ''public'' ''q'') = None
   \<and> map (\<lambda>t. length (tbl_columns t))
         (db_tables (committed (snd (CreateSimple (fresh_pool []) ''public'' ''q'')))) = [10]
   \<and> map (\<lambda>t. length (tbl_columns t))
         (db_tables (committed (snd (CreateSimple (fresh_pool []) ''public'' ''q'')))) \<noteq> [9]"
  by code_simp

end
